theory Spec2Isabelle
  imports Main "HOL-Library.Word" "HOL-Library.Log_Nat"
begin

section \<open>Binary STL importer of ConvertObjTo3mf: \<open>src/stl_binary.cpp\<close>\<close>

text \<open>
  The file embeds the three member functions of \<open>StlBinary\<close> and the static
  \<open>is_stl_binary\<close>, together with the part of \<open>std::ifstream\<close> and
  \<open>std::string\<close> they call. Conventions:
  \<^item> a byte is an \<open>8 word\<close>, \<open>uint32_t\<close> a \<open>32 word\<close>, \<open>size_t\<close> a
    \<open>64 word\<close>; the host is little-endian, as the source's comments assume;
  \<^item> a local variable that the source declares without initialiser and then fills
    with \<open>read((char*)&v, n)\<close> is a byte buffer whose prior content is a
    parameter of the model (the content is indeterminate in C++);
  \<^item> a \<open>float\<close> that is only moved (the vertex coordinates) is its 32-bit
    pattern; a \<open>float\<close> that is computed with (the probability) is the rational
    number it denotes, every operation rounded as IEEE-754 prescribes;
  \<^item> an exception is \<open>Inl\<close> of a sum type.
\<close>

subsection \<open>Data model\<close>

type_synonym byte = "8 word"
type_synonym float32 = "32 word"

text \<open>
  Modelled from the spec: the classes \<open>Point3\<close>, \<open>Face\<close>, \<open>Mesh\<close> and
  \<open>Model\<close> are declared in headers that are not part of the sources at hand. The
  spec (section 3) gives them as a coordinate triple, an ordered sequence of points,
  an ordered sequence of faces and an ordered sequence of meshes; a default-constructed
  container is empty.
\<close>

datatype Point3 = Point3 float32 float32 float32

record Face =
  vertices :: "Point3 list"

record Mesh =
  faces :: "Face list"

record Model =
  meshes :: "Mesh list"

text \<open>\<open>std::array<Point3, 3>\<close>: exactly three points, read by index 0, 1, 2.\<close>

datatype array3 = Array3 Point3 Point3 Point3

fun array3_at :: "array3 \<Rightarrow> nat \<Rightarrow> Point3" where
  "array3_at (Array3 a b c) i = (if i = 0 then a else if i = 1 then b else c)"

text \<open>
  Modelled from the spec: the class \<open>StlBinary\<close> itself is declared in
  \<open>stl_binary.hpp\<close>, which is missing; its one data member used by the code is the
  triangle list \<open>triangles\<close>, a vector of \<open>std::array<Point3, 3>\<close>.
\<close>

record StlBinary =
  triangles :: "array3 list"

definition StlBinary_new :: StlBinary where
  "StlBinary_new = \<lparr>triangles = []\<rparr>"

subsection \<open>\<open>StlBinary::to_model\<close>\<close>

text \<open>
  \<open>emplace_back()\<close> appends a default-constructed element; \<open>back()\<close> yields a
  reference to the last element, so that a mutation through the reference is an update
  of the last element of the vector.
\<close>

definition emplace_back :: "'a \<Rightarrow> 'a list \<Rightarrow> 'a list" where
  "emplace_back dflt xs = xs @ [dflt]"

definition push_back :: "'a \<Rightarrow> 'a list \<Rightarrow> 'a list" where
  "push_back x xs = xs @ [x]"

definition update_back :: "('a \<Rightarrow> 'a) \<Rightarrow> 'a list \<Rightarrow> 'a list" where
  "update_back f xs = (case rev xs of [] \<Rightarrow> [] | y # ys \<Rightarrow> rev ys @ [f y])"

text \<open>The body of the range-based \<open>for\<close> loop, acting on the mesh \<open>mesh\<close> refers to.\<close>

definition to_model_step :: "array3 \<Rightarrow> Mesh \<Rightarrow> Mesh" where
  "to_model_step triangle mesh =
     (let mesh = mesh\<lparr>faces := emplace_back \<lparr>vertices = []\<rparr> (faces mesh)\<rparr>;
          mesh = mesh\<lparr>faces := update_back
                   (\<lambda>face. face\<lparr>vertices := push_back (array3_at triangle 0) (vertices face)\<rparr>) (faces mesh)\<rparr>;
          mesh = mesh\<lparr>faces := update_back
                   (\<lambda>face. face\<lparr>vertices := push_back (array3_at triangle 1) (vertices face)\<rparr>) (faces mesh)\<rparr>;
          mesh = mesh\<lparr>faces := update_back
                   (\<lambda>face. face\<lparr>vertices := push_back (array3_at triangle 2) (vertices face)\<rparr>) (faces mesh)\<rparr>
      in mesh)"

definition to_model :: "StlBinary \<Rightarrow> Model" where
  "to_model stl =
     (let model = \<lparr>meshes = []\<rparr>;
          model = model\<lparr>meshes := emplace_back \<lparr>faces = []\<rparr> (meshes model)\<rparr>;
          model = model\<lparr>meshes := update_back (fold to_model_step (triangles stl)) (meshes model)\<rparr>
      in model)"

text \<open>The face the spec assigns to a triangle: its three points, in order.\<close>

definition face_of :: "array3 \<Rightarrow> Face" where
  "face_of t = (case t of Array3 a b c \<Rightarrow> \<lparr>vertices = [a, b, c]\<rparr>)"

subsection \<open>The part of \<open>std::ifstream\<close> the code uses\<close>

text \<open>
  A file system maps a path to the bytes of the file, or to \<open>None\<close> when the file
  cannot be opened for reading.
\<close>

type_synonym filesystem = "string \<Rightarrow> byte list option"

datatype iostate = badbit | eofbit | failbit

datatype seekdir = seek_beg | seek_cur | seek_end

text \<open>\<open>std::ios_base::failure\<close>, the one exception the stream can throw.\<close>

datatype failure = ios_failure

text \<open>
  The stream: the bytes behind its file buffer (\<open>None\<close> while no file is open), the
  get position, the state flags and the exception mask.
\<close>

record ifstream =
  filebuf :: "byte list option"
  gpos :: nat
  rdstate :: "iostate set"
  exceptions :: "iostate set"

definition and_then :: "failure + 'a \<Rightarrow> ('a \<Rightarrow> failure + 'b) \<Rightarrow> failure + 'b" where
  "and_then m f = (case m of Inl e \<Rightarrow> Inl e | Inr a \<Rightarrow> f a)"

definition good :: "ifstream \<Rightarrow> bool" where
  "good s = (rdstate s = {})"

definition fail :: "ifstream \<Rightarrow> bool" where
  "fail s = (failbit \<in> rdstate s \<or> badbit \<in> rdstate s)"

text \<open>\<open>clear(state)\<close> stores the flags and throws when one of them is in the mask.\<close>

definition clear :: "iostate set \<Rightarrow> ifstream \<Rightarrow> failure + ifstream" where
  "clear state s =
     (if state \<inter> exceptions s \<noteq> {} then Inl ios_failure else Inr (s\<lparr>rdstate := state\<rparr>))"

definition setstate :: "iostate set \<Rightarrow> ifstream \<Rightarrow> failure + ifstream" where
  "setstate state s = clear (rdstate s \<union> state) s"

text \<open>
  The sentry of an unformatted input function (\<open>noskipws\<close>): it is true on a good
  stream, and sets \<open>failbit\<close> otherwise.
\<close>

definition sentry :: "ifstream \<Rightarrow> failure + (bool \<times> ifstream)" where
  "sentry s =
     (if good s then Inr (True, s)
      else and_then (setstate {failbit} s) (\<lambda>s. Inr (False, s)))"

text \<open>
  \<open>basic_filebuf::seekoff\<close>: fails on a closed file and on a negative target; a
  target beyond the end of the file is accepted, as \<open>lseek\<close> accepts it.
\<close>

definition pubseekoff :: "int \<Rightarrow> seekdir \<Rightarrow> ifstream \<Rightarrow> nat option" where
  "pubseekoff off dir s =
     (case filebuf s of
        None \<Rightarrow> None
      | Some bytes \<Rightarrow>
          (let target = (case dir of
                           seek_beg \<Rightarrow> off
                         | seek_cur \<Rightarrow> int (gpos s) + off
                         | seek_end \<Rightarrow> int (length bytes) + off)
           in if target < 0 then None else Some (nat target)))"

definition pubseekpos :: "int \<Rightarrow> ifstream \<Rightarrow> nat option" where
  "pubseekpos pos s = pubseekoff pos seek_beg s"

text \<open>\<open>seekg(off, dir)\<close>: clears \<open>eofbit\<close>, then seeks unless the stream has failed.\<close>

definition seekg :: "int \<Rightarrow> seekdir \<Rightarrow> ifstream \<Rightarrow> failure + ifstream" where
  "seekg off dir s =
     and_then (clear (rdstate s - {eofbit}) s) (\<lambda>s.
     and_then (sentry s) (\<lambda>(ok, s).
       if \<not> fail s then
         (case pubseekoff off dir s of
            None \<Rightarrow> setstate {failbit} s
          | Some p \<Rightarrow> Inr (s\<lparr>gpos := p\<rparr>))
       else Inr s))"

text \<open>\<open>seekg(pos)\<close>, the overload with an absolute position.\<close>

definition seekg_pos :: "int \<Rightarrow> ifstream \<Rightarrow> failure + ifstream" where
  "seekg_pos pos s =
     and_then (clear (rdstate s - {eofbit}) s) (\<lambda>s.
     and_then (sentry s) (\<lambda>(ok, s).
       if \<not> fail s then
         (case pubseekpos pos s of
            None \<Rightarrow> setstate {failbit} s
          | Some p \<Rightarrow> Inr (s\<lparr>gpos := p\<rparr>))
       else Inr s))"

text \<open>\<open>tellg()\<close>: the position, or \<open>-1\<close> on a failed stream.\<close>

definition tellg :: "ifstream \<Rightarrow> failure + (int \<times> ifstream)" where
  "tellg s =
     and_then (sentry s) (\<lambda>(ok, s).
       if fail s then Inr (- 1, s)
       else Inr ((case pubseekoff 0 seek_cur s of None \<Rightarrow> - 1 | Some p \<Rightarrow> int p), s))"

text \<open>\<open>sgetn\<close>: as many of the \<open>n\<close> bytes as the file has from the get position on.\<close>

definition sgetn :: "nat \<Rightarrow> ifstream \<Rightarrow> byte list" where
  "sgetn n s = (case filebuf s of None \<Rightarrow> [] | Some bytes \<Rightarrow> take n (drop (gpos s) bytes))"

text \<open>
  \<open>read(buf, n)\<close>: \<open>buf\<close> is the content of the \<open>n\<close> bytes of the destination
  before the call, the result their content after it. Bytes that were not delivered keep
  their old value (the destination has \<open>n\<close> bytes, whatever \<open>buf\<close> holds beyond);
  a short read sets \<open>eofbit\<close> and \<open>failbit\<close>; on a stream that is not good nothing
  is read.
\<close>

definition read :: "byte list \<Rightarrow> nat \<Rightarrow> ifstream \<Rightarrow> failure + (byte list \<times> ifstream)" where
  "read buf n s =
     and_then (sentry s) (\<lambda>(ok, s).
       if ok then
         (let got = sgetn n s;
              buf = take n (got @ drop (length got) buf);
              s = s\<lparr>gpos := gpos s + length got\<rparr>
          in if length got \<noteq> n
             then and_then (setstate {eofbit, failbit} s) (\<lambda>s. Inr (buf, s))
             else Inr (buf, s))
       else Inr (take n buf, s))"

text \<open>
  The constructor \<open>std::ifstream(filename, mode)\<close>: \<open>basic_ios::init\<close> gives a good
  stream with an empty exception mask, and a failed \<open>open\<close> sets \<open>failbit\<close>.
\<close>

definition ifstream_open :: "filesystem \<Rightarrow> string \<Rightarrow> failure + ifstream" where
  "ifstream_open fs filename =
     (let s = \<lparr>filebuf = None, gpos = 0, rdstate = {}, exceptions = {}\<rparr>
      in case fs filename of
           None \<Rightarrow> setstate {failbit} s
         | Some bytes \<Rightarrow> clear {} (s\<lparr>filebuf := Some bytes\<rparr>))"

text \<open>The value of an integer or float object, from its bytes, on a little-endian host.\<close>

fun le_word :: "byte list \<Rightarrow> 'a::len word" where
  "le_word [] = 0"
| "le_word (b # bs) = ucast b + 256 * le_word bs"

subsection \<open>\<open>StlBinary::load\<close>\<close>

text \<open>
  The indeterminate content of the locals that \<open>load\<close> and \<open>is_stl_binary\<close>
  declare without initialiser: the 4 bytes of \<open>num_triangles\<close>, and the 4 bytes of
  each of the nine floats of each iteration of the loop.
\<close>

record uninit =
  u_num_triangles :: "byte list"
  u_float :: "nat \<Rightarrow> nat \<Rightarrow> byte list"

text \<open>
  One iteration of the loop. \<open>triangle_index\<close> is a \<open>size_t\<close> below
  \<open>num_triangles\<close>, hence below \<open>2 ^ 32\<close>: neither the increment nor
  \<open>84 + triangle_index * 50 + 12\<close> wraps, and the index is a natural number here.
\<close>

definition load_triangle :: "(nat \<Rightarrow> byte list) \<Rightarrow> nat \<Rightarrow> ifstream \<Rightarrow> failure + (array3 \<times> ifstream)" where
  "load_triangle junk triangle_index file_handle =
     and_then (seekg_pos (int (84 + triangle_index * 50 + 12)) file_handle) (\<lambda>file_handle.
     and_then (read (junk 0) 4 file_handle) (\<lambda>(v1_x, file_handle).
     and_then (read (junk 1) 4 file_handle) (\<lambda>(v1_y, file_handle).
     and_then (read (junk 2) 4 file_handle) (\<lambda>(v1_z, file_handle).
     and_then (read (junk 3) 4 file_handle) (\<lambda>(v2_x, file_handle).
     and_then (read (junk 4) 4 file_handle) (\<lambda>(v2_y, file_handle).
     and_then (read (junk 5) 4 file_handle) (\<lambda>(v2_z, file_handle).
     and_then (read (junk 6) 4 file_handle) (\<lambda>(v3_x, file_handle).
     and_then (read (junk 7) 4 file_handle) (\<lambda>(v3_y, file_handle).
     and_then (read (junk 8) 4 file_handle) (\<lambda>(v3_z, file_handle).
     Inr (Array3 (Point3 (le_word v1_x) (le_word v1_y) (le_word v1_z))
                 (Point3 (le_word v2_x) (le_word v2_y) (le_word v2_z))
                 (Point3 (le_word v3_x) (le_word v3_y) (le_word v3_z)),
          file_handle)))))))))))"

function load_loop ::
  "(nat \<Rightarrow> nat \<Rightarrow> byte list) \<Rightarrow> nat \<Rightarrow> nat \<Rightarrow> ifstream \<Rightarrow> array3 list
     \<Rightarrow> failure + (ifstream \<times> array3 list)" where
  "load_loop junk triangle_index num_triangles file_handle ts =
     (if triangle_index < num_triangles then
        and_then (load_triangle (junk triangle_index) triangle_index file_handle)
          (\<lambda>(triangle, file_handle).
             load_loop junk (triangle_index + 1) num_triangles file_handle
               (push_back triangle ts))
      else Inr (file_handle, ts))"
  by pat_completeness auto
termination
  by (relation "measure (\<lambda>(junk, i, n, s, ts). n - i)") auto

declare load_loop.simps [simp del]

text \<open>
  \<open>load\<close>, returning the stream as it is when the function ends beside the object.
  \<open>triangles.reserve\<close> changes the capacity only and is left out; memory is taken to
  suffice, so that the only exception in the model is the one of the stream.
\<close>

definition load_run :: "uninit \<Rightarrow> filesystem \<Rightarrow> string \<Rightarrow> StlBinary \<Rightarrow> failure + (ifstream \<times> StlBinary)" where
  "load_run u fs filename this =
     and_then (ifstream_open fs filename) (\<lambda>file_handle.
     and_then (seekg 80 seek_beg file_handle) (\<lambda>file_handle.
     and_then (read (u_num_triangles u) 4 file_handle) (\<lambda>(buf, file_handle).
     let num_triangles = (le_word buf :: 32 word) in
     and_then (seekg 0 seek_end file_handle) (\<lambda>file_handle.
     and_then (tellg file_handle) (\<lambda>(pos, file_handle).
     let file_size = (word_of_int pos :: 64 word) in
     and_then (seekg 84 seek_beg file_handle) (\<lambda>file_handle.
     let num_triangles =
           (if (file_size - 84) div 50 < ucast num_triangles
            then (ucast ((file_size - 84) div 50) :: 32 word) else num_triangles) in
     and_then (load_loop (u_float u) 0 (unat num_triangles) file_handle (triangles this))
       (\<lambda>(file_handle, ts). Inr (file_handle, this\<lparr>triangles := ts\<rparr>))))))))"

definition load :: "uninit \<Rightarrow> filesystem \<Rightarrow> string \<Rightarrow> StlBinary \<Rightarrow> failure + StlBinary" where
  "load u fs filename this =
     and_then (load_run u fs filename this) (\<lambda>(file_handle, this). Inr this)"

subsection \<open>\<open>StlBinary::import\<close>\<close>

text \<open>The result is the text written to \<open>std::cout\<close> and the model.\<close>

definition import_stl :: "uninit \<Rightarrow> filesystem \<Rightarrow> string \<Rightarrow> failure + (string \<times> Model)" where
  "import_stl u fs filename =
     (let cout = ''Importing binary STL file: '' @ filename @ [CHR 0x0A];
          stl = StlBinary_new
      in and_then (load u fs filename stl) (\<lambda>stl. Inr (cout, to_model stl)))"

subsection \<open>\<open>float\<close> and \<open>double\<close> arithmetic\<close>

text \<open>
  A finite \<open>float\<close> or \<open>double\<close> is the rational number it denotes. An operation
  is the exact operation followed by rounding to the nearest value of the format, ties to
  the even significand (IEEE-754 binary32 and binary64, every expression evaluated in the
  precision of its type). Overflow is left out: all values here are at most 1.
\<close>

definition pow2 :: "int \<Rightarrow> rat" where
  "pow2 e = (if 0 \<le> e then 2 ^ nat e else 1 / 2 ^ nat (- e))"

definition round_even :: "rat \<Rightarrow> int" where
  "round_even q =
     (let f = \<lfloor>q\<rfloor>; r = q - of_int f
      in if r < 1 / 2 then f
         else if 1 / 2 < r then f + 1
         else if even f then f else f + 1)"

text \<open>The exponent \<open>e\<close> with \<open>2 ^ e \<le> \<bar>x\<bar> < 2 ^ (e + 1)\<close>, for \<open>x \<noteq> 0\<close>.\<close>

definition binade :: "rat \<Rightarrow> int" where
  "binade x =
     (let a = \<bar>x\<bar>
      in if 1 \<le> a then bitlen \<lfloor>a\<rfloor> - 1 else - bitlen (\<lceil>1 / a\<rceil> - 1))"

text \<open>Rounding to a format of \<open>p\<close> significant bits and least normal exponent \<open>emin\<close>.\<close>

definition fl :: "nat \<Rightarrow> int \<Rightarrow> rat \<Rightarrow> rat" where
  "fl p emin x =
     (if x = 0 then 0
      else let e = max (binade x) emin;
               quantum = pow2 (e - int p + 1)
           in of_int (round_even (x / quantum)) * quantum)"

definition float_rnd :: "rat \<Rightarrow> rat" where
  "float_rnd = fl 24 (- 126)"

definition double_rnd :: "rat \<Rightarrow> rat" where
  "double_rnd = fl 53 (- 1022)"

subsection \<open>\<open>StlBinary::is_stl_binary\<close>\<close>

text \<open>
  \<open>std::string::find_last_of(chars)\<close>: the greatest index whose character is one of
  \<open>chars\<close>; \<open>None\<close> stands for \<open>npos\<close>, which is the greatest \<open>size_t\<close>.
\<close>

fun find_last_of :: "string \<Rightarrow> string \<Rightarrow> nat option" where
  "find_last_of [] chars = None"
| "find_last_of (c # str) chars =
     (case find_last_of str chars of
        Some i \<Rightarrow> Some (Suc i)
      | None \<Rightarrow> if c \<in> set chars then Some 0 else None)"

definition size_type :: "nat option \<Rightarrow> 64 word" where
  "size_type r = (case r of None \<Rightarrow> - 1 | Some i \<Rightarrow> of_nat i)"

text \<open>The two \<open>constexpr float\<close> constants, initialised from \<open>double\<close> literals.\<close>

definition probability_incorrect_extension :: rat where
  "probability_incorrect_extension = float_rnd (double_rnd (1 / 100))"

definition probability_incorrect_size :: rat where
  "probability_incorrect_size = float_rnd (double_rnd (1 / 10000))"

text \<open>
  The function has three parts, which its comments delimit; each is a definition here.
  First the condition of the \<open>if\<close> on the file name (the subtraction is in
  \<open>size_t\<close>), and the probability that the two branches assign.
\<close>

definition extension_test :: "string \<Rightarrow> bool" where
  "extension_test filename =
     (size_type (find_last_of filename ''.stl'') = of_nat (length filename) - 4)"

definition extension_probability :: "string \<Rightarrow> rat" where
  "extension_probability filename =
     (if extension_test filename
      then float_rnd (1 - probability_incorrect_extension)
      else probability_incorrect_extension)"

text \<open>
  Second the file size check, returning the final value of \<open>correct_file_size\<close>.
  \<open>seekg(file_handle.beg)\<close> is the overload with a position, called with the value 0
  of the enumerator. \<open>84 + 50 * num_triangles\<close> is an \<open>unsigned int\<close> expression,
  converted to \<open>size_t\<close> for the comparison.
\<close>

definition file_size_check :: "uninit \<Rightarrow> filesystem \<Rightarrow> string \<Rightarrow> failure + bool" where
  "file_size_check u fs filename =
     (let correct_file_size = True in
      and_then (ifstream_open fs filename) (\<lambda>file_handle.
      and_then (seekg 0 seek_end file_handle) (\<lambda>file_handle.
      and_then (tellg file_handle) (\<lambda>(pos, file_handle).
      let file_size = (word_of_int pos :: 64 word) in
      and_then (seekg_pos 0 file_handle) (\<lambda>file_handle.
      let correct_file_size = (if file_size < 84 then False else correct_file_size) in
      and_then (seekg 80 seek_beg file_handle) (\<lambda>file_handle.
      and_then (read (u_num_triangles u) 4 file_handle) (\<lambda>(buf, file_handle).
      let num_triangles = (le_word buf :: 32 word);
          correct_file_size =
            (if file_size \<noteq> ucast (84 + 50 * num_triangles) then False
             else correct_file_size)
      in Inr correct_file_size)))))))"

text \<open>
  Third the adjustment: the first branch is computed in \<open>double\<close> (its literals are
  \<open>double\<close>) and converted on assignment, the second in \<open>float\<close>.
\<close>

definition adjust_probability :: "rat \<Rightarrow> bool \<Rightarrow> rat" where
  "adjust_probability probability correct_file_size =
     (if correct_file_size
      then float_rnd (double_rnd (1 -
             double_rnd (double_rnd (1 - probability) * probability_incorrect_size)))
      else float_rnd (probability * probability_incorrect_size))"

definition is_stl_binary :: "uninit \<Rightarrow> filesystem \<Rightarrow> string \<Rightarrow> failure + rat" where
  "is_stl_binary u fs filename =
     (let probability = float_rnd (double_rnd (1 / 3));
          probability = extension_probability filename
      in and_then (file_size_check u fs filename) (\<lambda>correct_file_size.
           Inr (adjust_probability probability correct_file_size)))"

subsection \<open>The file layout, in the words of the spec\<close>

text \<open>
  Section 6 of the spec: the triangle count is the unsigned 32-bit little-endian integer
  at offset 80; record \<open>k\<close> starts at offset \<open>84 + 50 * k\<close>, and its three vertices
  are at offsets 12, 24 and 36 of the record, each three little-endian 32-bit floats.
\<close>

definition declared_count :: "byte list \<Rightarrow> 32 word" where
  "declared_count bytes = le_word (take 4 (drop 80 bytes))"

definition float_at :: "byte list \<Rightarrow> nat \<Rightarrow> float32" where
  "float_at bytes off = le_word (take 4 (drop off bytes))"

definition vertex_at :: "byte list \<Rightarrow> nat \<Rightarrow> Point3" where
  "vertex_at bytes off =
     Point3 (float_at bytes off) (float_at bytes (off + 4)) (float_at bytes (off + 8))"

definition triangle_record :: "byte list \<Rightarrow> nat \<Rightarrow> array3" where
  "triangle_record bytes k =
     Array3 (vertex_at bytes (84 + 50 * k + 12))
            (vertex_at bytes (84 + 50 * k + 24))
            (vertex_at bytes (84 + 50 * k + 36))"

text \<open>
  The triangle that an iteration builds when none of its nine reads delivers a byte: the
  floats keep their indeterminate content.
\<close>

definition junk_triangle :: "(nat \<Rightarrow> byte list) \<Rightarrow> array3" where
  "junk_triangle junk =
     Array3 (Point3 (le_word (take 4 (junk 0))) (le_word (take 4 (junk 1))) (le_word (take 4 (junk 2))))
            (Point3 (le_word (take 4 (junk 3))) (le_word (take 4 (junk 4))) (le_word (take 4 (junk 5))))
            (Point3 (le_word (take 4 (junk 6))) (le_word (take 4 (junk 7))) (le_word (take 4 (junk 8))))"

text \<open>
  Section 4.1 of the spec: the extension matches when the last 4 characters of the path
  are \<open>.stl\<close>, and the size is consistent when the file has at least 84 bytes and its
  size is exactly \<open>84 + 50 * N\<close>, in exact arithmetic, for the declared count \<open>N\<close>.
\<close>

definition stl_suffix :: "string \<Rightarrow> bool" where
  "stl_suffix path = (4 \<le> length path \<and> drop (length path - 4) path = ''.stl'')"

definition size_consistent :: "byte list \<Rightarrow> bool" where
  "size_consistent bytes =
     (84 \<le> length bytes \<and> length bytes = 84 + 50 * unat (declared_count bytes))"

subsection \<open>Example inputs\<close>

text \<open>Indeterminate locals that happen to hold zero bytes, or a count of one.\<close>

definition zero_junk :: uninit where
  "zero_junk = \<lparr>u_num_triangles = [0, 0, 0, 0], u_float = (\<lambda>i j. [0, 0, 0, 0])\<rparr>"

definition one_junk :: uninit where
  "one_junk = \<lparr>u_num_triangles = [1, 0, 0, 0], u_float = (\<lambda>i j. [0, 0, 0, 0])\<rparr>"

text \<open>
  The file of the spec's round-trip scenario: one record, with the vertices
  \<open>(0,0,0)\<close>, \<open>(1,0,0)\<close>, \<open>(0,1,0)\<close> (the float 1 is \<open>0x3F800000\<close>), a normal
  of other bytes and an attribute count.
\<close>

definition one_triangle_file :: "byte list" where
  "one_triangle_file =
     replicate 80 0 @ [1, 0, 0, 0] @ replicate 12 7
     @ [0, 0, 0, 0,  0, 0, 0, 0,  0, 0, 0, 0]
     @ [0, 0, 0x80, 0x3F,  0, 0, 0, 0,  0, 0, 0, 0]
     @ [0, 0, 0, 0,  0, 0, 0x80, 0x3F,  0, 0, 0, 0]
     @ [9, 9]"

text \<open>A file that declares 5 triangles and holds one record and 30 more bytes.\<close>

definition overdeclared_file :: "byte list" where
  "overdeclared_file = replicate 80 0 @ [5, 0, 0, 0] @ replicate 80 0"

text \<open>
  A file of 88 bytes that declares \<open>85899346 = 0x051EB852\<close> triangles:
  \<open>84 + 50 * 85899346 = 2 ^ 32 + 88\<close>.
\<close>

definition wrap_file :: "byte list" where
  "wrap_file = replicate 80 0 @ [0x52, 0xB8, 0x1E, 0x05] @ replicate 4 0"

text \<open>Two files of 84 bytes that declare no triangle and differ in all header bytes.\<close>

definition empty_mesh_file :: "byte list" where
  "empty_mesh_file = replicate 80 0 @ [0, 0, 0, 0]"

definition other_header_file :: "byte list" where
  "other_header_file = replicate 80 1 @ [0, 0, 0, 0]"

subsection \<open>Conversion of the triangle list\<close>

lemma update_back_snoc: "update_back f (xs @ [x]) = xs @ [f x]"
  by (simp add: update_back_def)

lemma to_model_step_faces: "faces (to_model_step t m) = faces m @ [face_of t]"
  by (cases t) (simp add: to_model_step_def emplace_back_def push_back_def
      update_back_snoc face_of_def Let_def)

lemma fold_to_model_step_faces:
  "faces (fold to_model_step ts m) = faces m @ map face_of ts"
  by (induction ts arbitrary: m) (simp_all add: to_model_step_faces)

lemma to_model_eq: "to_model stl = \<lparr>meshes = [\<lparr>faces = map face_of (triangles stl)\<rparr>]\<rparr>"
proof -
  define m where "m = fold to_model_step (triangles stl) \<lparr>faces = []\<rparr>"
  have "faces m = map face_of (triangles stl)"
    by (simp add: m_def fold_to_model_step_faces)
  then have "m = \<lparr>faces = map face_of (triangles stl)\<rparr>"
    by (cases m) simp
  then show ?thesis
    by (simp add: to_model_def emplace_back_def update_back_def Let_def m_def)
qed

subsection \<open>The stream operations on a good and on a failed stream\<close>

lemmas stream_defs = and_then_def good_def fail_def clear_def setstate_def sentry_def
  pubseekoff_def pubseekpos_def sgetn_def

lemma seekg_good:
  "filebuf s = Some bytes \<Longrightarrow> rdstate s = {} \<Longrightarrow> exceptions s = {} \<Longrightarrow> 0 \<le> off
   \<Longrightarrow> seekg off seek_beg s = Inr (s\<lparr>gpos := nat off\<rparr>)"
  by (simp add: seekg_def stream_defs)

lemma seekg_end_good:
  "filebuf s = Some bytes \<Longrightarrow> rdstate s = {} \<Longrightarrow> exceptions s = {}
   \<Longrightarrow> seekg 0 seek_end s = Inr (s\<lparr>gpos := length bytes\<rparr>)"
  by (simp add: seekg_def stream_defs)

lemma seekg_pos_good:
  "filebuf s = Some bytes \<Longrightarrow> rdstate s = {} \<Longrightarrow> exceptions s = {} \<Longrightarrow> 0 \<le> pos
   \<Longrightarrow> seekg_pos pos s = Inr (s\<lparr>gpos := nat pos\<rparr>)"
  by (simp add: seekg_pos_def stream_defs)

lemma tellg_good:
  "filebuf s = Some bytes \<Longrightarrow> rdstate s = {} \<Longrightarrow> exceptions s = {}
   \<Longrightarrow> tellg s = Inr (int (gpos s), s)"
  by (simp add: tellg_def stream_defs)

lemma read_good:
  "filebuf s = Some bytes \<Longrightarrow> rdstate s = {} \<Longrightarrow> exceptions s = {}
   \<Longrightarrow> gpos s + n \<le> length bytes
   \<Longrightarrow> read buf n s = Inr (take n (drop (gpos s) bytes), s\<lparr>gpos := gpos s + n\<rparr>)"
  by (auto simp add: read_def stream_defs Let_def min_def)

lemma read_short:
  "filebuf s = Some bytes \<Longrightarrow> rdstate s = {} \<Longrightarrow> exceptions s = {}
   \<Longrightarrow> length bytes - gpos s < n
   \<Longrightarrow> read buf n s = Inr (take n (drop (gpos s) bytes @ drop (length bytes - gpos s) buf),
         s\<lparr>gpos := gpos s + (length bytes - gpos s), rdstate := {eofbit, failbit}\<rparr>)"
  by (auto simp add: read_def stream_defs Let_def min_def)

lemma seekg_failed:
  "failbit \<in> rdstate s \<Longrightarrow> exceptions s = {}
   \<Longrightarrow> seekg off dir s = Inr (s\<lparr>rdstate := rdstate s - {eofbit}\<rparr>)"
  by (auto simp add: seekg_def stream_defs insert_absorb)

lemma seekg_pos_failed:
  "failbit \<in> rdstate s \<Longrightarrow> exceptions s = {}
   \<Longrightarrow> seekg_pos pos s = Inr (s\<lparr>rdstate := rdstate s - {eofbit}\<rparr>)"
  by (auto simp add: seekg_pos_def stream_defs insert_absorb)

lemma tellg_failed:
  "failbit \<in> rdstate s \<Longrightarrow> exceptions s = {} \<Longrightarrow> tellg s = Inr (- 1, s)"
  by (auto simp add: tellg_def stream_defs insert_absorb)

lemma read_failed:
  "failbit \<in> rdstate s \<Longrightarrow> exceptions s = {} \<Longrightarrow> read buf n s = Inr (take n buf, s)"
  by (auto simp add: read_def stream_defs insert_absorb)

lemma ifstream_open_Some:
  "fs filename = Some bytes \<Longrightarrow> ifstream_open fs filename
     = Inr \<lparr>filebuf = Some bytes, gpos = 0, rdstate = {}, exceptions = {}\<rparr>"
  by (simp add: ifstream_open_def stream_defs)

lemma ifstream_open_None:
  "fs filename = None \<Longrightarrow> ifstream_open fs filename
     = Inr \<lparr>filebuf = None, gpos = 0, rdstate = {failbit}, exceptions = {}\<rparr>"
  by (simp add: ifstream_open_def stream_defs)

text \<open>
  \<open>failbit\<close> is sticky under the operations the code calls, and a read that asks for
  bytes beyond the end of the file sets it.
\<close>

lemma failbit_sticky_seekg:
  "seekg off dir s = Inr s' \<Longrightarrow> failbit \<in> rdstate s \<Longrightarrow> failbit \<in> rdstate s'"
  by (auto simp add: seekg_def stream_defs split: if_splits option.splits)

lemma failbit_sticky_seekg_pos:
  "seekg_pos pos s = Inr s' \<Longrightarrow> failbit \<in> rdstate s \<Longrightarrow> failbit \<in> rdstate s'"
  by (auto simp add: seekg_pos_def stream_defs split: if_splits option.splits)

lemma failbit_sticky_tellg:
  "tellg s = Inr (pos, s') \<Longrightarrow> failbit \<in> rdstate s \<Longrightarrow> failbit \<in> rdstate s'"
  by (auto simp add: tellg_def stream_defs split: if_splits option.splits)

lemma failbit_sticky_read:
  "read buf n s = Inr (b, s') \<Longrightarrow> failbit \<in> rdstate s \<Longrightarrow> failbit \<in> rdstate s'"
  by (auto simp add: read_def stream_defs Let_def split: if_splits option.splits)

lemma read_beyond_end_sets_failbit:
  "read buf n s = Inr (b, s') \<Longrightarrow> filebuf s = Some bytes \<Longrightarrow> 0 < n
   \<Longrightarrow> length bytes < gpos s + n \<Longrightarrow> failbit \<in> rdstate s'"
  by (auto simp add: read_def stream_defs Let_def split: if_splits option.splits)

lemma load_triangle_good:
  assumes "filebuf s = Some bytes" "rdstate s = {}" "exceptions s = {}"
    and "84 + 50 * i + 48 \<le> length bytes"
  shows "load_triangle junk i s = Inr (triangle_record bytes i, s\<lparr>gpos := 84 + 50 * i + 48\<rparr>)"
proof -
  have [simp]: "nat (96 + int i * 50) = 96 + i * 50"
    by linarith
  show ?thesis
  using assms
  by (simp add: load_triangle_def seekg_pos_good read_good and_then_def
      triangle_record_def vertex_at_def float_at_def add.commute mult.commute)
qed

lemma load_triangle_failed:
  assumes "failbit \<in> rdstate s" "exceptions s = {}"
  shows "load_triangle junk i s = Inr (junk_triangle junk, s\<lparr>rdstate := rdstate s - {eofbit}\<rparr>)"
  using assms
  by (simp add: load_triangle_def seekg_pos_failed read_failed and_then_def junk_triangle_def)

lemma load_loop_good:
  assumes "filebuf s = Some bytes" "rdstate s = {}" "exceptions s = {}"
    and "84 + 50 * n \<le> length bytes"
  shows "\<exists>s'. load_loop junk i n s ts = Inr (s', ts @ map (triangle_record bytes) [i..<n])
           \<and> filebuf s' = Some bytes \<and> rdstate s' = {} \<and> exceptions s' = {}
           \<and> (gpos s' = gpos s \<or> gpos s' \<le> length bytes)"
  using assms
proof (induction junk i n s ts rule: load_loop.induct)
  case (1 junk i n s ts)
  show ?case
  proof (cases "i < n")
    case False
    with 1 show ?thesis by (subst load_loop.simps) simp
  next
    case True
    let ?s1 = "s\<lparr>gpos := 84 + 50 * i + 48\<rparr>"
    from True "1.prems" have fit: "84 + 50 * i + 48 \<le> length bytes" by linarith
    have body: "load_triangle (junk i) i s = Inr (triangle_record bytes i, ?s1)"
      using "1.prems" fit by (rule_tac load_triangle_good) simp_all
    from "1.IH" [of ?s1 "triangle_record bytes i", OF True] "1.prems"
    obtain s' where s': "load_loop junk (i + 1) n ?s1 (push_back (triangle_record bytes i) ts)
           = Inr (s', push_back (triangle_record bytes i) ts @ map (triangle_record bytes) [i + 1..<n])"
        "filebuf s' = Some bytes" "rdstate s' = {}" "exceptions s' = {}"
        "gpos s' = gpos ?s1 \<or> gpos s' \<le> length bytes"
      by auto
    have "load_loop junk i n s ts = Inr (s', ts @ map (triangle_record bytes) [i..<n])"
      using True body s'(1)
      by (subst load_loop.simps) (simp add: and_then_def push_back_def upt_conv_Cons)
    moreover have "gpos s' \<le> length bytes" using s'(5) fit by auto
    ultimately show ?thesis using s' by blast
  qed
qed

lemma load_loop_failed:
  assumes "failbit \<in> rdstate s" "exceptions s = {}"
  shows "\<exists>s'. load_loop junk i n s ts = Inr (s', ts @ map (\<lambda>k. junk_triangle (junk k)) [i..<n])
           \<and> failbit \<in> rdstate s' \<and> exceptions s' = {}"
  using assms
proof (induction junk i n s ts rule: load_loop.induct)
  case (1 junk i n s ts)
  show ?case
  proof (cases "i < n")
    case False
    with 1 show ?thesis by (subst load_loop.simps) simp
  next
    case True
    let ?s1 = "s\<lparr>rdstate := rdstate s - {eofbit}\<rparr>"
    have body: "load_triangle (junk i) i s = Inr (junk_triangle (junk i), ?s1)"
      using "1.prems" by (rule load_triangle_failed)
    from "1.IH" [of ?s1 "junk_triangle (junk i)", OF True] "1.prems"
    obtain s' where s': "load_loop junk (i + 1) n ?s1 (push_back (junk_triangle (junk i)) ts)
           = Inr (s', push_back (junk_triangle (junk i)) ts @ map (\<lambda>k. junk_triangle (junk k)) [i + 1..<n])"
        "failbit \<in> rdstate s'" "exceptions s' = {}"
      by auto
    have "load_loop junk i n s ts = Inr (s', ts @ map (\<lambda>k. junk_triangle (junk k)) [i..<n])"
      using True body s'(1)
      by (subst load_loop.simps) (simp add: and_then_def push_back_def upt_conv_Cons)
    then show ?thesis using s' by blast
  qed
qed

lemma unat_size_minus_84:
  assumes "84 \<le> L" "L < 2 ^ 64"
  shows "unat ((word_of_int (int L) - 84) div 50 :: 64 word) = (L - 84) div 50"
proof -
  have a: "unat (of_nat L :: 64 word) = L"
    using assms by (simp add: unat_of_nat)
  have b: "(84 :: 64 word) \<le> of_nat L"
    using assms a by (simp add: word_le_nat_alt)
  have "unat (of_nat L - 84 :: 64 word) = L - 84"
    using a b by (simp add: unat_sub)
  then show ?thesis
    by (simp add: unat_div)
qed

lemma clamp_unat:
  assumes "84 \<le> L" "L < 2 ^ 64"
  shows "unat (if (word_of_int (int L) - 84) div 50 < (ucast (N :: 32 word) :: 64 word)
               then (ucast ((word_of_int (int L) - 84) div 50 :: 64 word) :: 32 word) else N)
         = min (unat N) ((L - 84) div 50)"
proof -
  let ?x = "(word_of_int (int L) - 84) div 50 :: 64 word"
  have x: "unat ?x = (L - 84) div 50"
    using assms by (rule unat_size_minus_84)
  have n: "unat (ucast N :: 64 word) = unat N"
    using unsigned_less [of N, where 'a = nat]
    by (simp add: unsigned_ucast_eq take_bit_nat_eq_self)
  have lt: "?x < ucast N \<longleftrightarrow> (L - 84) div 50 < unat N"
    by (simp only: word_less_nat_alt x n)
  have n32: "unat N < 2 ^ 32"
    using unsigned_less [of N, where 'a = nat] by simp
  show ?thesis
  proof (cases "?x < ucast N")
    case True
    then have "(L - 84) div 50 < 2 ^ 32" using lt n32 by linarith
    then have "take_bit LENGTH(32) ((L - 84) div 50) = (L - 84) div 50"
      by (simp add: take_bit_nat_eq_self)
    moreover have "unat (ucast ?x :: 32 word) = take_bit LENGTH(32) (unat ?x)"
      by (rule unsigned_ucast_eq)
    ultimately have "unat (ucast ?x :: 32 word) = (L - 84) div 50"
      by (simp only: x)
    with True lt show ?thesis by (simp only: if_True min_def) simp
  next
    case False
    with lt show ?thesis by (simp only: if_False min_def) simp
  qed
qed

lemma size_on_failure:
  "((word_of_int (- 1) - 84) div 50 :: 64 word) = 368934881474191030"
  by simp

lemma no_clamp_on_failure:
  "\<not> (368934881474191030 :: 64 word) < ucast (N :: 32 word)"
proof -
  have "unat (ucast N :: 64 word) < 2 ^ 32"
    using unsigned_less [of N, where 'a = nat]
    by (simp add: unsigned_ucast_eq take_bit_nat_eq_self)
  then show ?thesis
    by (simp add: word_less_nat_alt)
qed

lemma load_run_readable:
  assumes "fs filename = Some bytes" "84 \<le> length bytes" "length bytes < 2 ^ 64"
  shows "\<exists>s'. load_run u fs filename this
             = Inr (s', this\<lparr>triangles := triangles this @ map (triangle_record bytes)
                     [0..<min (unat (declared_count bytes)) ((length bytes - 84) div 50)]\<rparr>)
           \<and> rdstate s' = {} \<and> gpos s' \<le> length bytes"
proof -
  let ?n = "min (unat (declared_count bytes)) ((length bytes - 84) div 50)"
  let ?s = "\<lparr>filebuf = Some bytes, gpos = 84, rdstate = {}, exceptions = {}\<rparr>"
  have clamp: "unat (if (word_of_int (int (length bytes)) - 84) div 50
                          < (ucast (declared_count bytes) :: 64 word)
                     then (ucast ((word_of_int (int (length bytes)) - 84) div 50 :: 64 word) :: 32 word)
                     else declared_count bytes) = ?n"
    using assms(2,3) by (rule clamp_unat)
  have "load_run u fs filename this
          = and_then (load_loop (u_float u) 0
               (unat (if (word_of_int (int (length bytes)) - 84) div 50
                          < (ucast (declared_count bytes) :: 64 word)
                     then (ucast ((word_of_int (int (length bytes)) - 84) div 50 :: 64 word) :: 32 word)
                     else declared_count bytes)) ?s (triangles this))
              (\<lambda>(file_handle, ts). Inr (file_handle, this\<lparr>triangles := ts\<rparr>))"
    using assms(1,2)
    by (simp add: load_run_def ifstream_open_Some seekg_good read_good seekg_end_good
        tellg_good and_then_def declared_count_def)
  then have run: "load_run u fs filename this
          = and_then (load_loop (u_float u) 0 ?n ?s (triangles this))
              (\<lambda>(file_handle, ts). Inr (file_handle, this\<lparr>triangles := ts\<rparr>))"
    by (simp only: clamp)
  have "84 + 50 * ?n \<le> length bytes"
    using assms(2) by (simp add: min_def) linarith
  from load_loop_good [of ?s bytes ?n "u_float u" 0 "triangles this"] this
  obtain s' where "load_loop (u_float u) 0 ?n ?s (triangles this)
        = Inr (s', triangles this @ map (triangle_record bytes) [0..<?n])"
      "rdstate s' = {}" "gpos s' = gpos ?s \<or> gpos s' \<le> length bytes"
    by auto
  with run assms(2) show ?thesis
    by (auto simp add: and_then_def)
qed

lemma load_run_short:
  assumes "fs filename = Some bytes" "length bytes < 84"
  shows "\<exists>s'. load_run u fs filename this
             = Inr (s', this\<lparr>triangles := triangles this @ map (\<lambda>k. junk_triangle (u_float u k))
                     [0..<unat (le_word (take 4 (drop 80 bytes
                             @ drop (length bytes - 80) (u_num_triangles u))) :: 32 word)]\<rparr>)
           \<and> failbit \<in> rdstate s'"
proof -
  let ?n = "unat (le_word (take 4 (drop 80 bytes
              @ drop (length bytes - 80) (u_num_triangles u))) :: 32 word)"
  let ?s = "\<lparr>filebuf = Some bytes, gpos = 80 + (length bytes - 80), rdstate = {failbit},
             exceptions = {}\<rparr>"
  have "load_run u fs filename this
          = and_then (load_loop (u_float u) 0 ?n ?s (triangles this))
              (\<lambda>(file_handle, ts). Inr (file_handle, this\<lparr>triangles := ts\<rparr>))"
    using assms
    by (simp add: load_run_def ifstream_open_Some seekg_good read_short seekg_failed
        tellg_failed and_then_def no_clamp_on_failure)
  moreover from load_loop_failed [of ?s "u_float u" 0 ?n "triangles this"]
  obtain s' where "load_loop (u_float u) 0 ?n ?s (triangles this)
        = Inr (s', triangles this @ map (\<lambda>k. junk_triangle (u_float u k)) [0..<?n])"
      "failbit \<in> rdstate s'"
    by auto
  ultimately show ?thesis
    by (auto simp add: and_then_def)
qed

lemma load_run_unreadable:
  assumes "fs filename = None"
  shows "\<exists>s'. load_run u fs filename this
             = Inr (s', this\<lparr>triangles := triangles this @ map (\<lambda>k. junk_triangle (u_float u k))
                     [0..<unat (le_word (take 4 (u_num_triangles u)) :: 32 word)]\<rparr>)
           \<and> failbit \<in> rdstate s'"
proof -
  let ?n = "unat (le_word (take 4 (u_num_triangles u)) :: 32 word)"
  let ?s = "\<lparr>filebuf = None, gpos = 0, rdstate = {failbit}, exceptions = {}\<rparr>"
  have "load_run u fs filename this
          = and_then (load_loop (u_float u) 0 ?n ?s (triangles this))
              (\<lambda>(file_handle, ts). Inr (file_handle, this\<lparr>triangles := ts\<rparr>))"
    using assms
    by (simp add: load_run_def ifstream_open_None seekg_failed read_failed
        tellg_failed and_then_def no_clamp_on_failure)
  moreover from load_loop_failed [of ?s "u_float u" 0 ?n "triangles this"]
  obtain s' where "load_loop (u_float u) 0 ?n ?s (triangles this)
        = Inr (s', triangles this @ map (\<lambda>k. junk_triangle (u_float u k)) [0..<?n])"
      "failbit \<in> rdstate s'"
    by auto
  ultimately show ?thesis
    by (auto simp add: and_then_def)
qed

subsection \<open>No operation throws while the exception mask is empty\<close>

lemma seekg_total:
  "exceptions s = {} \<Longrightarrow> \<exists>s'. seekg off dir s = Inr s' \<and> exceptions s' = {}"
  by (auto simp add: seekg_def stream_defs split: option.splits)

lemma seekg_pos_total:
  "exceptions s = {} \<Longrightarrow> \<exists>s'. seekg_pos pos s = Inr s' \<and> exceptions s' = {}"
  by (auto simp add: seekg_pos_def stream_defs split: option.splits)

lemma tellg_total:
  "exceptions s = {} \<Longrightarrow> \<exists>pos s'. tellg s = Inr (pos, s') \<and> exceptions s' = {}"
  by (auto simp add: tellg_def stream_defs split: option.splits)

lemma read_total:
  "exceptions s = {} \<Longrightarrow> \<exists>b s'. read buf n s = Inr (b, s') \<and> exceptions s' = {}"
  by (auto simp add: read_def stream_defs Let_def split: option.splits)

lemma ifstream_open_total:
  "\<exists>s. ifstream_open fs filename = Inr s \<and> exceptions s = {}"
  by (auto simp add: ifstream_open_def stream_defs Let_def split: option.splits)

lemma load_triangle_total:
  assumes "exceptions s = {}"
  shows "\<exists>t s'. load_triangle junk i s = Inr (t, s') \<and> exceptions s' = {}"
proof -
  obtain s0 where s0: "seekg_pos (int (84 + i * 50 + 12)) s = Inr s0" "exceptions s0 = {}"
    using seekg_pos_total [OF assms] by blast
  obtain b1 s1 where s1: "read (junk 0) 4 s0 = Inr (b1, s1)" "exceptions s1 = {}"
    using read_total [OF s0(2)] by blast
  obtain b2 s2 where s2: "read (junk 1) 4 s1 = Inr (b2, s2)" "exceptions s2 = {}"
    using read_total [OF s1(2)] by blast
  obtain b3 s3 where s3: "read (junk 2) 4 s2 = Inr (b3, s3)" "exceptions s3 = {}"
    using read_total [OF s2(2)] by blast
  obtain b4 s4 where s4: "read (junk 3) 4 s3 = Inr (b4, s4)" "exceptions s4 = {}"
    using read_total [OF s3(2)] by blast
  obtain b5 s5 where s5: "read (junk 4) 4 s4 = Inr (b5, s5)" "exceptions s5 = {}"
    using read_total [OF s4(2)] by blast
  obtain b6 s6 where s6: "read (junk 5) 4 s5 = Inr (b6, s6)" "exceptions s6 = {}"
    using read_total [OF s5(2)] by blast
  obtain b7 s7 where s7: "read (junk 6) 4 s6 = Inr (b7, s7)" "exceptions s7 = {}"
    using read_total [OF s6(2)] by blast
  obtain b8 s8 where s8: "read (junk 7) 4 s7 = Inr (b8, s8)" "exceptions s8 = {}"
    using read_total [OF s7(2)] by blast
  obtain b9 s9 where s9: "read (junk 8) 4 s8 = Inr (b9, s9)" "exceptions s9 = {}"
    using read_total [OF s8(2)] by blast
  have "load_triangle junk i s
          = Inr (Array3 (Point3 (le_word b1) (le_word b2) (le_word b3))
                        (Point3 (le_word b4) (le_word b5) (le_word b6))
                        (Point3 (le_word b7) (le_word b8) (le_word b9)), s9)"
    by (simp only: load_triangle_def and_then_def s0(1) s1(1) s2(1) s3(1) s4(1) s5(1)
        s6(1) s7(1) s8(1) s9(1) sum.case prod.case)
  with s9(2) show ?thesis by blast
qed

lemma load_loop_total:
  assumes "exceptions s = {}"
  shows "\<exists>s' ts'. load_loop junk i n s ts = Inr (s', ts') \<and> exceptions s' = {}"
  using assms
proof (induction junk i n s ts rule: load_loop.induct)
  case (1 junk i n s ts)
  show ?case
  proof (cases "i < n")
    case False
    with 1 show ?thesis by (subst load_loop.simps) simp
  next
    case True
    obtain t s1 where body: "load_triangle (junk i) i s = Inr (t, s1)" "exceptions s1 = {}"
      using load_triangle_total [OF "1.prems"] by blast
    from "1.IH" [of s1 t, OF True body(2)]
    obtain s' ts' where "load_loop junk (i + 1) n s1 (push_back t ts) = Inr (s', ts')"
        "exceptions s' = {}"
      by blast
    then show ?thesis
      using True body by (subst load_loop.simps) (simp add: and_then_def)
  qed
qed

lemma load_run_total:
  "\<exists>s' stl. load_run u fs filename this = Inr (s', stl)"
proof -
  obtain s0 where s0: "ifstream_open fs filename = Inr s0" "exceptions s0 = {}"
    using ifstream_open_total by blast
  obtain s1 where s1: "seekg 80 seek_beg s0 = Inr s1" "exceptions s1 = {}"
    using seekg_total [OF s0(2)] by blast
  obtain buf s2 where s2: "read (u_num_triangles u) 4 s1 = Inr (buf, s2)" "exceptions s2 = {}"
    using read_total [OF s1(2)] by blast
  obtain s3 where s3: "seekg 0 seek_end s2 = Inr s3" "exceptions s3 = {}"
    using seekg_total [OF s2(2)] by blast
  obtain pos s4 where s4: "tellg s3 = Inr (pos, s4)" "exceptions s4 = {}"
    using tellg_total [OF s3(2)] by blast
  obtain s5 where s5: "seekg 84 seek_beg s4 = Inr s5" "exceptions s5 = {}"
    using seekg_total [OF s4(2)] by blast
  define n where "n = unat (if (word_of_int pos - 84) div 50 < (ucast (le_word buf :: 32 word) :: 64 word)
            then (ucast ((word_of_int pos - 84) div 50 :: 64 word) :: 32 word)
            else le_word buf)"
  obtain s6 ts where s6: "load_loop (u_float u) 0 n s5 (triangles this) = Inr (s6, ts)"
    using load_loop_total [OF s5(2)] by blast
  have "load_run u fs filename this = Inr (s6, this\<lparr>triangles := ts\<rparr>)"
    using s6 unfolding n_def
    by (simp only: load_run_def and_then_def s0(1) s1(1) s2(1) s3(1) s4(1) s5(1) Let_def
        sum.case prod.case)
  then show ?thesis by blast
qed

lemma load_total: "\<exists>stl. load u fs filename this = Inr stl"
  using load_run_total [of u fs filename this] by (auto simp add: load_def and_then_def)

subsection \<open>The file size check, in closed form\<close>

lemma small_size_word:
  assumes "L < 84"
  shows "(word_of_int (int L) :: 64 word) < 84"
proof -
  have "unat (of_nat L :: 64 word) = L"
    using assms by (simp add: unat_of_nat)
  then show ?thesis using assms by (simp add: word_less_nat_alt)
qed

lemma ucast_not_max: "(- 1 :: 64 word) \<noteq> ucast (w :: 32 word)"
proof
  assume "(- 1 :: 64 word) = ucast w"
  then have "unat (- 1 :: 64 word) = unat (ucast w :: 64 word)"
    by simp
  moreover have "unat (ucast w :: 64 word) < 2 ^ 32"
    using unsigned_less [of w, where 'a = nat]
    by (simp add: unsigned_ucast_eq take_bit_nat_eq_self)
  moreover have "unat (- 1 :: 64 word) = 2 ^ 64 - 1"
    by (simp add: unsigned_minus_1_eq_mask mask_eq_exp_minus_1)
  ultimately show False by simp
qed

lemma file_size_check_eq:
  "file_size_check u fs filename
     = Inr (case fs filename of
              None \<Rightarrow> False
            | Some bytes \<Rightarrow>
                84 \<le> length bytes
                \<and> (84 :: 64 word) \<le> word_of_int (int (length bytes))
                \<and> (word_of_int (int (length bytes)) :: 64 word)
                    = ucast (84 + 50 * declared_count bytes))"
proof (cases "fs filename")
  case None
  have "(- 1 :: 64 word) \<noteq> ucast (84 + 50 * (le_word (take 4 (u_num_triangles u)) :: 32 word))"
    by (rule ucast_not_max)
  with None show ?thesis
    by (simp add: file_size_check_def ifstream_open_None seekg_failed seekg_pos_failed
        tellg_failed read_failed and_then_def Let_def)
next
  case (Some bytes)
  show ?thesis
  proof (cases "84 \<le> length bytes")
    case True
    with Some show ?thesis
      by (auto simp add: file_size_check_def ifstream_open_Some seekg_good seekg_pos_good
        seekg_end_good tellg_good read_good and_then_def declared_count_def not_le
        Let_def)
  next
    case False
    then have "(word_of_int (int (length bytes)) :: 64 word) < 84"
      by (intro small_size_word) simp
    with Some False show ?thesis
      by (auto simp add: file_size_check_def ifstream_open_Some seekg_good seekg_pos_good
        seekg_end_good tellg_good read_short and_then_def Let_def)
  qed
qed

subsection \<open>Claims about \<open>to_model\<close>\<close>

text \<open>
  C7. \<open>to_model\<close> is a function of the triangle list alone: it returns a model with
  exactly one mesh, whose faces are the triangles in their order, one face per triangle,
  each face holding the three points of its triangle in the same order. On the empty
  list, as before \<open>load\<close>, it returns a model with one mesh and no face.
\<close>

theorem to_model_one_mesh:
  "to_model stl = \<lparr>meshes = [\<lparr>faces =
       map (\<lambda>triangle. \<lparr>vertices = [array3_at triangle 0, array3_at triangle 1,
                                      array3_at triangle 2]\<rparr>) (triangles stl)\<rparr>]\<rparr>
   \<and> to_model StlBinary_new = \<lparr>meshes = [\<lparr>faces = []\<rparr>]\<rparr>"
proof -
  have "face_of = (\<lambda>triangle. \<lparr>vertices = [array3_at triangle 0, array3_at triangle 1,
                                      array3_at triangle 2]\<rparr>)"
  proof
    fix t show "face_of t = \<lparr>vertices = [array3_at t 0, array3_at t 1, array3_at t 2]\<rparr>"
      by (cases t) (simp add: face_of_def)
  qed
  then show ?thesis
    by (simp add: to_model_eq StlBinary_new_def)
qed

subsection \<open>Claims about \<open>load\<close> on a file of at least 84 bytes\<close>

text \<open>
  C1. For a readable file of at least 84 bytes whose declared triangle count exceeds
  \<open>(file_size - 84) div 50\<close>, \<open>load\<close> returns normally, with exactly
  \<open>(file_size - 84) div 50\<close> triangles (the records of the file, in order); the stream
  ends without \<open>eofbit\<close> or \<open>failbit\<close> and at a position inside the file, so that no
  read went beyond the end of the file (such a read sets \<open>failbit\<close>, lemma
  \<open>read_beyond_end_sets_failbit\<close>, and nothing the code calls resets it, lemmas
  \<open>failbit_sticky_seekg\<close> to \<open>failbit_sticky_read\<close>); \<open>to_model\<close> then yields one
  mesh with that many faces.
\<close>

theorem load_clamps_declared_count:
  assumes "fs filename = Some bytes"
    and "84 \<le> length bytes"
    and "(length bytes - 84) div 50 < unat (declared_count bytes)"
  shows "\<exists>file_handle stl.
           load_run u fs filename StlBinary_new = Inr (file_handle, stl)
         \<and> load u fs filename StlBinary_new = Inr stl
         \<and> triangles stl = map (triangle_record bytes) [0..<(length bytes - 84) div 50]
         \<and> length (triangles stl) = (length bytes - 84) div 50
         \<and> rdstate file_handle = {} \<and> gpos file_handle \<le> length bytes
         \<and> (\<exists>mesh. to_model stl = \<lparr>meshes = [mesh]\<rparr>
               \<and> length (faces mesh) = (length bytes - 84) div 50)"
proof -
  let ?m = "(length bytes - 84) div 50"
  have "unat (declared_count bytes) < 2 ^ 32"
    using unsigned_less [of "declared_count bytes", where 'a = nat] by simp
  with assms(3) have "?m < 2 ^ 32" by linarith
  then have small: "length bytes < 2 ^ 64" by simp
  have m: "min (unat (declared_count bytes)) ?m = ?m"
    using assms(3) by simp
  from load_run_readable [where fs = fs and filename = filename and bytes = bytes
      and u = u and this = StlBinary_new] assms(1,2) small
  obtain s' where run: "load_run u fs filename StlBinary_new
        = Inr (s', StlBinary_new\<lparr>triangles := triangles StlBinary_new
                 @ map (triangle_record bytes) [0..<?m]\<rparr>)"
      and s': "rdstate s' = {}" "gpos s' \<le> length bytes"
    unfolding m by blast
  let ?stl = "StlBinary_new\<lparr>triangles := triangles StlBinary_new
                 @ map (triangle_record bytes) [0..<?m]\<rparr>"
  have "load u fs filename StlBinary_new = Inr ?stl"
    by (simp add: load_def run and_then_def)
  moreover have "triangles ?stl = map (triangle_record bytes) [0..<?m]"
    by (simp add: StlBinary_new_def)
  moreover have "to_model ?stl = \<lparr>meshes = [\<lparr>faces = map face_of (triangles ?stl)\<rparr>]\<rparr>"
    by (rule to_model_eq)
  ultimately show ?thesis
    using run s' by (intro exI [of _ s'] exI [of _ ?stl]) simp
qed

lemma overdeclared_file_facts:
  "length overdeclared_file = 164" "declared_count overdeclared_file = 5"
  by (simp_all add: overdeclared_file_def declared_count_def)

theorem load_clamps_declared_count_witness:
  "(\<lambda>path. Some overdeclared_file) ''mesh.stl'' = Some overdeclared_file
   \<and> 84 \<le> length overdeclared_file
   \<and> (length overdeclared_file - 84) div 50 < unat (declared_count overdeclared_file)
   \<and> (\<exists>file_handle stl.
           load_run zero_junk (\<lambda>path. Some overdeclared_file) ''mesh.stl'' StlBinary_new
             = Inr (file_handle, stl)
         \<and> load zero_junk (\<lambda>path. Some overdeclared_file) ''mesh.stl'' StlBinary_new = Inr stl
         \<and> length (triangles stl) = 1
         \<and> rdstate file_handle = {} \<and> gpos file_handle \<le> 164
         \<and> (\<exists>mesh. to_model stl = \<lparr>meshes = [mesh]\<rparr> \<and> length (faces mesh) = 1))"
proof -
  have h1: "(\<lambda>path. Some overdeclared_file) ''mesh.stl'' = Some overdeclared_file"
    by simp
  have h2: "84 \<le> length overdeclared_file"
    by (simp add: overdeclared_file_facts)
  have h3: "(length overdeclared_file - 84) div 50 < unat (declared_count overdeclared_file)"
    by (simp add: overdeclared_file_facts)
  from load_clamps_declared_count [where fs = "\<lambda>path. Some overdeclared_file"
      and filename = "''mesh.stl''" and u = zero_junk, OF h1 h2 h3]
  show ?thesis
    using h2 h3 by (simp add: overdeclared_file_facts) blast
qed

lemma load_of_load_run:
  "load_run u fs filename this = Inr (s, stl) \<Longrightarrow> load u fs filename this = Inr stl"
  by (simp add: load_def and_then_def)

text \<open>
  C8. For a readable file of exactly \<open>84 + 50 * N\<close> bytes whose count field declares
  \<open>N\<close>, \<open>import\<close> returns normally, after the progress line, the model with one
  mesh and \<open>N\<close> faces, where face \<open>i\<close> holds exactly the three vertices of record
  \<open>i\<close> (at offsets 12, 24 and 36 of the record, the normal and the attribute bytes left
  aside), in the order of the file; and \<open>import\<close> is \<open>to_model\<close> of the object that
  \<open>load\<close> produces.
\<close>

theorem import_well_formed_file:
  assumes "fs filename = Some bytes"
    and "length bytes = 84 + 50 * unat (declared_count bytes)"
  shows "import_stl u fs filename
           = Inr (''Importing binary STL file: '' @ filename @ [CHR 0x0A],
                  \<lparr>meshes = [\<lparr>faces =
                     map (\<lambda>i. \<lparr>vertices = [vertex_at bytes (84 + 50 * i + 12),
                                           vertex_at bytes (84 + 50 * i + 24),
                                           vertex_at bytes (84 + 50 * i + 36)]\<rparr>)
                       [0..<unat (declared_count bytes)]\<rparr>]\<rparr>)
         \<and> (\<exists>stl. load u fs filename StlBinary_new = Inr stl
               \<and> import_stl u fs filename
                   = Inr (''Importing binary STL file: '' @ filename @ [CHR 0x0A], to_model stl))"
proof -
  let ?n = "unat (declared_count bytes)"
  have "?n < 2 ^ 32"
    using unsigned_less [of "declared_count bytes", where 'a = nat] by simp
  with assms(2) have small: "length bytes < 2 ^ 64" by simp
  have big: "84 \<le> length bytes" using assms(2) by simp
  have m: "min ?n ((length bytes - 84) div 50) = ?n"
    using assms(2) by simp
  from load_run_readable [where fs = fs and filename = filename and bytes = bytes
      and u = u and this = StlBinary_new] assms(1) big small
  obtain s' where run: "load_run u fs filename StlBinary_new
        = Inr (s', StlBinary_new\<lparr>triangles := triangles StlBinary_new
                 @ map (triangle_record bytes) [0..<?n]\<rparr>)"
    unfolding m by blast
  let ?stl = "StlBinary_new\<lparr>triangles := triangles StlBinary_new
                 @ map (triangle_record bytes) [0..<?n]\<rparr>"
  have ld: "load u fs filename StlBinary_new = Inr ?stl"
    using run by (rule load_of_load_run)
  have imp: "import_stl u fs filename
           = Inr (''Importing binary STL file: '' @ filename @ [CHR 0x0A], to_model ?stl)"
    by (simp add: import_stl_def ld and_then_def)
  have "to_model ?stl = \<lparr>meshes = [\<lparr>faces =
                     map (\<lambda>i. \<lparr>vertices = [vertex_at bytes (84 + 50 * i + 12),
                                           vertex_at bytes (84 + 50 * i + 24),
                                           vertex_at bytes (84 + 50 * i + 36)]\<rparr>)
                       [0..<?n]\<rparr>]\<rparr>"
    by (simp add: to_model_eq StlBinary_new_def face_of_def triangle_record_def)
  with imp ld show ?thesis by auto
qed

lemma one_triangle_file_facts:
  "length one_triangle_file = 134" "declared_count one_triangle_file = 1"
  by (simp_all add: one_triangle_file_def declared_count_def)

lemma one_triangle_file_vertices:
  "vertex_at one_triangle_file 96 = Point3 0 0 0"
  "vertex_at one_triangle_file 108 = Point3 0x3F800000 0 0"
  "vertex_at one_triangle_file 120 = Point3 0 0x3F800000 0"
  by (simp_all add: one_triangle_file_def vertex_at_def float_at_def)

theorem import_well_formed_file_witness:
  "(\<lambda>path. Some one_triangle_file) ''mesh.stl'' = Some one_triangle_file
   \<and> length one_triangle_file = 84 + 50 * unat (declared_count one_triangle_file)
   \<and> import_stl zero_junk (\<lambda>path. Some one_triangle_file) ''mesh.stl''
       = Inr (''Importing binary STL file: mesh.stl'' @ [CHR 0x0A],
              \<lparr>meshes = [\<lparr>faces = [\<lparr>vertices =
                 [Point3 0 0 0, Point3 0x3F800000 0 0, Point3 0 0x3F800000 0]\<rparr>]\<rparr>]\<rparr>)"
proof -
  have h1: "(\<lambda>path. Some one_triangle_file) ''mesh.stl'' = Some one_triangle_file"
    by simp
  have h2: "length one_triangle_file = 84 + 50 * unat (declared_count one_triangle_file)"
    by (simp add: one_triangle_file_facts)
  from import_well_formed_file [where fs = "\<lambda>path. Some one_triangle_file"
      and filename = "''mesh.stl''" and u = zero_junk, OF h1 h2]
  show ?thesis
    using h2 by (simp add: one_triangle_file_facts one_triangle_file_vertices)
qed

subsection \<open>Claims about \<open>load\<close> on a file of less than 84 bytes\<close>

text \<open>
  C2 says that a readable file of less than 84 bytes gives no triangle. The code does
  not do that: the read of the count is short and sets \<open>failbit\<close>, so that \<open>tellg\<close>
  returns \<open>-1\<close>, \<open>file_size\<close> is the greatest \<open>size_t\<close>, the clamp never applies,
  and the loop runs as often as the undelivered bytes of \<open>num_triangles\<close> say
  (lemma \<open>load_run_short\<close>). On the file of 0 bytes, with a count slot that held 1,
  \<open>load\<close> returns one triangle and \<open>import\<close> a mesh of one face.
\<close>

theorem load_empty_file_junk_count:
  "load one_junk (\<lambda>path. Some []) ''empty.stl'' StlBinary_new
     = Inr \<lparr>triangles = [Array3 (Point3 0 0 0) (Point3 0 0 0) (Point3 0 0 0)]\<rparr>
   \<and> import_stl one_junk (\<lambda>path. Some []) ''empty.stl''
     = Inr (''Importing binary STL file: empty.stl'' @ [CHR 0x0A],
            \<lparr>meshes = [\<lparr>faces = [\<lparr>vertices =
               [Point3 0 0 0, Point3 0 0 0, Point3 0 0 0]\<rparr>]\<rparr>]\<rparr>)"
proof -
  from load_run_short [where fs = "\<lambda>path. Some []" and filename = "''empty.stl''"
      and bytes = "[]" and u = one_junk and this = StlBinary_new]
  obtain s' where "load_run one_junk (\<lambda>path. Some []) ''empty.stl'' StlBinary_new
      = Inr (s', \<lparr>triangles = [Array3 (Point3 0 0 0) (Point3 0 0 0) (Point3 0 0 0)]\<rparr>)"
    by (auto simp add: one_junk_def StlBinary_new_def junk_triangle_def)
  then have ld: "load one_junk (\<lambda>path. Some []) ''empty.stl'' StlBinary_new
     = Inr \<lparr>triangles = [Array3 (Point3 0 0 0) (Point3 0 0 0) (Point3 0 0 0)]\<rparr>"
    by (rule load_of_load_run)
  then show ?thesis
    by (simp add: import_stl_def and_then_def to_model_eq face_of_def)
qed

text \<open>Where \<open>84 + 50 * N\<close> does not wrap, the check is the one of the spec.\<close>

lemma file_size_check_without_wrap:
  assumes "fs filename = Some bytes" "length bytes < 2 ^ 64"
    and "84 + 50 * unat (declared_count bytes) < 2 ^ 32"
  shows "file_size_check u fs filename = Inr (size_consistent bytes)"
proof -
  let ?n = "declared_count bytes"
  have a: "unat (of_nat (length bytes) :: 64 word) = length bytes"
    using assms(2) by (simp add: unat_of_nat)
  have "unat (84 + 50 * ?n) = (84 + 50 * unat ?n) mod 2 ^ 32"
    by (simp add: unat_word_ariths mod_simps)
  then have b: "unat (84 + 50 * ?n) = 84 + 50 * unat ?n"
    using assms(3) by simp
  have c: "unat (ucast (84 + 50 * ?n) :: 64 word) = 84 + 50 * unat ?n"
    using unsigned_less [of "84 + 50 * ?n", where 'a = nat] b
    by (simp add: unsigned_ucast_eq take_bit_nat_eq_self)
  have eq: "(of_nat (length bytes) :: 64 word) = ucast (84 + 50 * ?n)
        \<longleftrightarrow> length bytes = 84 + 50 * unat ?n"
    by (simp only: word_unat_eq_iff a c)
  have le: "(84 :: 64 word) \<le> of_nat (length bytes) \<longleftrightarrow> 84 \<le> length bytes"
    using a by (simp add: word_le_nat_alt)
  show ?thesis
    using assms(1) eq le
    by (auto simp add: file_size_check_eq size_consistent_def)
qed

subsection \<open>The test on the file name\<close>

text \<open>No path that ends in \<open>.stl\<close> passes the test of the code.\<close>

lemma find_last_of_snoc:
  "c \<in> set chars \<Longrightarrow> find_last_of (str @ [c]) chars = Some (length str)"
  by (induction str) simp_all

lemma stl_suffix_fails_extension_test:
  assumes "stl_suffix path"
  shows "\<not> extension_test path"
proof -
  from assms have len: "4 \<le> length path" and suf: "drop (length path - 4) path = ''.stl''"
    by (simp_all add: stl_suffix_def)
  define pre where "pre = take (length path - 4) path @ ''.st''"
  have "path = take (length path - 4) path @ drop (length path - 4) path"
    by simp
  then have path: "path = pre @ [CHR ''l'']"
    unfolding suf pre_def by simp
  have "find_last_of path ''.stl'' = Some (length pre)"
    unfolding path by (rule find_last_of_snoc) simp
  moreover have "(of_nat (length pre) :: 64 word) \<noteq> of_nat (length path) - 4"
  proof
    assume "(of_nat (length pre) :: 64 word) = of_nat (length path) - 4"
    moreover have "(of_nat (length path) :: 64 word) = of_nat (length pre) + 1"
      unfolding path by simp
    ultimately have "(3 :: 64 word) = 0"
      by simp
    then show False by simp
  qed
  ultimately show ?thesis
    by (simp add: extension_test_def size_type_def)
qed

subsection \<open>The constants of \<open>is_stl_binary\<close>\<close>

text \<open>
  The values of the two constants, of \<open>1 - probability_incorrect_extension\<close> and of
  the four results, as the fractions that the floats denote.
\<close>

text \<open>The rounding function on known values of the two formats, with ties and a subnormal.\<close>

lemma rounding_examples:
  "float_rnd 1 = 1"
  "float_rnd (1 / 3) = 11184811 / 2 ^ 25"
  "double_rnd (1 / 3) = 6004799503160661 / 2 ^ 54"
  "float_rnd (1 / 10) = 13421773 / 2 ^ 27"
  "float_rnd (1 + 1 / 2 ^ 24) = 1"
  "float_rnd (1 + 3 / 2 ^ 24) = 1 + 2 / 2 ^ 23"
  "float_rnd (3 / 2 ^ 150) = 2 / 2 ^ 149"
  by code_simp+

lemma float_constants:
  "probability_incorrect_extension = 10737418 / 1073741824"
  "probability_incorrect_size = 13743895 / 137438953472"
  "float_rnd (1 - probability_incorrect_extension) = 16609444 / 16777216"
  by code_simp+

lemma adjusted_constants:
  "adjust_probability (float_rnd (1 - probability_incorrect_extension)) True
     = 16777199 / 16777216"
  "adjust_probability (float_rnd (1 - probability_incorrect_extension)) False
     = 1700807 / 17179869184"
  "adjust_probability probability_incorrect_extension True = 16775555 / 16777216"
  "adjust_probability probability_incorrect_extension False = 8796093 / 8796093022208"
  by code_simp+

text \<open>
  The two results of the \<open>double\<close> branch do not depend on the intermediate roundings:
  rounding the exact value once gives the same floats.
\<close>

lemma adjusted_constants_one_rounding:
  "float_rnd (1 - (1 - float_rnd (1 - probability_incorrect_extension))
                     * probability_incorrect_size) = 16777199 / 16777216"
  "float_rnd (1 - (1 - probability_incorrect_extension) * probability_incorrect_size)
     = 16775555 / 16777216"
  by code_simp+

text \<open>
  The four results are within \<open>10\<^sup>-\<^sup>7\<close> of the values of the formulas on the
  decimal constants 0.01 and 0.0001.
\<close>

lemma adjusted_constants_close:
  "\<bar>adjust_probability (float_rnd (1 - probability_incorrect_extension)) True
      - (1 - (1 - 99 / 100) * (1 / 10000))\<bar> < 1 / 10 ^ 7"
  "\<bar>adjust_probability (float_rnd (1 - probability_incorrect_extension)) False
      - 99 / 100 * (1 / 10000)\<bar> < 1 / 10 ^ 7"
  "\<bar>adjust_probability probability_incorrect_extension True
      - (1 - (1 - 1 / 100) * (1 / 10000))\<bar> < 1 / 10 ^ 7"
  "\<bar>adjust_probability probability_incorrect_extension False
      - 1 / 100 * (1 / 10000)\<bar> < 1 / 10 ^ 7"
  by (simp_all add: adjusted_constants)

lemma wrap_file_facts:
  "length wrap_file = 88" "declared_count wrap_file = 85899346"
  by (simp_all add: wrap_file_def declared_count_def)

lemma is_stl_binary_eq:
  "is_stl_binary u fs filename
     = and_then (file_size_check u fs filename)
         (\<lambda>c. Inr (adjust_probability (extension_probability filename) c))"
  by (simp add: is_stl_binary_def Let_def)

lemma is_stl_binary_closed_form:
  "is_stl_binary u fs filename
     = Inr (let c = (case fs filename of
                       None \<Rightarrow> False
                     | Some bytes \<Rightarrow>
                         84 \<le> length bytes
                         \<and> (84 :: 64 word) \<le> word_of_int (int (length bytes))
                         \<and> (word_of_int (int (length bytes)) :: 64 word)
                             = ucast (84 + 50 * (le_word (take 4 (drop 80 bytes)) :: 32 word)))
            in if extension_test filename
               then (if c then 16777199 / 16777216 else 1700807 / 17179869184)
               else (if c then 16775555 / 16777216 else 8796093 / 8796093022208))"
proof -
  have "adjust_probability (extension_probability filename) c
        = (if extension_test filename
               then (if c then 16777199 / 16777216 else 1700807 / 17179869184)
               else (if c then 16775555 / 16777216 else 8796093 / 8796093022208))" for c
    by (cases c; cases "extension_test filename")
       (simp_all only: extension_probability_def adjusted_constants if_True if_False)
  then show ?thesis
    by (simp only: is_stl_binary_eq file_size_check_eq and_then_def sum.case Let_def
        declared_count_def)
qed

lemma is_stl_binary_range:
  "\<exists>probability. is_stl_binary u fs filename = Inr probability
     \<and> 0 \<le> probability \<and> probability \<le> 1"
  by (simp add: is_stl_binary_closed_form Let_def)


text \<open>Where \<open>84 + 50 * N\<close> does not wrap, the result is on the side of 0.5 that the spec gives.\<close>

lemma adjust_extension_cases:
  "adjust_probability (extension_probability filename) c
     = (if extension_test filename
        then (if c then 16777199 / 16777216 else 1700807 / 17179869184)
        else (if c then 16775555 / 16777216 else 8796093 / 8796093022208))"
  by (cases c; cases "extension_test filename")
     (simp_all only: extension_probability_def adjusted_constants if_True if_False)

lemma is_stl_binary_bounds_without_wrap:
  assumes "fs filename = Some bytes" "length bytes < 2 ^ 64"
    and "84 + 50 * unat (declared_count bytes) < 2 ^ 32"
  shows "\<exists>probability. is_stl_binary u fs filename = Inr probability
           \<and> (size_consistent bytes \<longrightarrow> 1 / 2 < probability)
           \<and> (\<not> size_consistent bytes \<longrightarrow> probability < 1 / 2)"
proof -
  have "file_size_check u fs filename = Inr (size_consistent bytes)"
    using assms by (rule file_size_check_without_wrap)
  then have "is_stl_binary u fs filename
        = Inr (adjust_probability (extension_probability filename) (size_consistent bytes))"
    by (simp only: is_stl_binary_eq and_then_def sum.case)
  moreover have "1 / 2 < adjust_probability (extension_probability filename) True"
    by (simp add: adjust_extension_cases)
  moreover have "adjust_probability (extension_probability filename) False < 1 / 2"
    by (simp add: adjust_extension_cases)
  ultimately show ?thesis
    by (cases "size_consistent bytes") simp_all
qed


subsection \<open>Claims about the extension step\<close>

text \<open>
  C3 says that the base probability is \<open>1 - 0.01\<close> exactly when the path ends in
  \<open>.stl\<close>. The code does not do that: \<open>find_last_of\<close> looks for the last
  occurrence of any of the characters \<open>.\<close>, \<open>s\<close>, \<open>t\<close>, \<open>l\<close>, which for a path
  ending in \<open>.stl\<close> is its last index and not its length minus 4. On
  \<open>model.stl\<close> the test fails and the base probability is
  \<open>probability_incorrect_extension\<close>; on \<open>model.obj\<close> the test passes and the base
  probability is \<open>1 - probability_incorrect_extension\<close>. No path ending in \<open>.stl\<close>
  passes the test (lemma \<open>stl_suffix_fails_extension_test\<close>).
\<close>

theorem extension_step_on_stl_path:
  "stl_suffix ''model.stl''
   \<and> \<not> extension_test ''model.stl''
   \<and> extension_probability ''model.stl'' = probability_incorrect_extension
   \<and> \<not> stl_suffix ''model.obj''
   \<and> extension_test ''model.obj''
   \<and> extension_probability ''model.obj'' = float_rnd (1 - probability_incorrect_extension)
   \<and> probability_incorrect_extension = 10737418 / 1073741824
   \<and> float_rnd (1 - probability_incorrect_extension) = 16609444 / 16777216"
proof -
  have a: "\<not> extension_test ''model.stl''" "extension_test ''model.obj''"
    by (simp_all add: extension_test_def size_type_def)
  have b: "stl_suffix ''model.stl''" "\<not> stl_suffix ''model.obj''"
    by (simp_all add: stl_suffix_def)
  have c: "extension_probability ''model.stl'' = probability_incorrect_extension"
    "extension_probability ''model.obj'' = float_rnd (1 - probability_incorrect_extension)"
    using a by (simp_all add: extension_probability_def)
  show ?thesis
    using a b c float_constants(1,3) by blast
qed

subsection \<open>Claims about the size check\<close>

text \<open>
  C4 says that the size check succeeds exactly when the file has at least 84 bytes and
  its size is \<open>84 + 50 * N\<close> in exact arithmetic. The code does not do that:
  \<open>84 + 50 * num_triangles\<close> is computed in 32 bits and wraps. On the file of 88
  bytes that declares 85899346 triangles the check succeeds, although
  \<open>84 + 50 * 85899346 = 4294967384\<close>. Where the sum stays below \<open>2 ^ 32\<close> the check
  is as the claim says (lemma \<open>file_size_check_without_wrap\<close>).
\<close>

theorem size_check_wraps:
  "file_size_check zero_junk (\<lambda>path. Some wrap_file) ''part.stl'' = Inr True
   \<and> length wrap_file = 88
   \<and> 84 + 50 * unat (declared_count wrap_file) = 4294967384
   \<and> \<not> size_consistent wrap_file"
  by (simp add: file_size_check_eq wrap_file_facts size_consistent_def)

text \<open>
  C5. For every input, the size check returns, and \<open>is_stl_binary\<close> returns
  \<open>1 - (1 - p) * 0.0001\<close> when the check succeeded and \<open>p * 0.0001\<close> when it failed,
  where \<open>p\<close> is the probability of the extension step. In the arithmetic of the code
  the constant is the float nearest to 0.0001, \<open>13743895 / 2 ^ 37\<close>, within
  \<open>10\<^sup>-\<^sup>1\<^sup>1\<close> of 0.0001; the first formula is computed in \<open>double\<close> and rounded to
  \<open>float\<close> at the end, the second in \<open>float\<close>; and the result is within
  \<open>10\<^sup>-\<^sup>7\<close> of the value of the formula in exact arithmetic on the decimal constant.
  Nothing else enters the result.
\<close>

theorem is_stl_binary_adjustment:
  "\<exists>correct_file_size probability.
      file_size_check u fs filename = Inr correct_file_size
    \<and> is_stl_binary u fs filename = Inr probability
    \<and> probability
        = (if correct_file_size
           then float_rnd (double_rnd (1 - double_rnd
                  (double_rnd (1 - extension_probability filename)
                     * (13743895 / 137438953472))))
           else float_rnd (extension_probability filename * (13743895 / 137438953472)))
    \<and> probability_incorrect_size = 13743895 / 137438953472
    \<and> \<bar>probability_incorrect_size - 1 / 10000\<bar> < 1 / 10 ^ 11
    \<and> \<bar>probability
         - (if correct_file_size
            then 1 - (1 - extension_probability filename) * (1 / 10000)
            else extension_probability filename * (1 / 10000))\<bar> < 1 / 10 ^ 7"
proof -
  obtain c where c: "file_size_check u fs filename = Inr c"
    by (simp add: file_size_check_eq)
  define r where "r = adjust_probability (extension_probability filename) c"
  have res: "is_stl_binary u fs filename = Inr r"
    by (simp only: is_stl_binary_eq c and_then_def sum.case r_def)
  have form: "r = (if c
           then float_rnd (double_rnd (1 - double_rnd
                  (double_rnd (1 - extension_probability filename)
                     * (13743895 / 137438953472))))
           else float_rnd (extension_probability filename * (13743895 / 137438953472)))"
    by (simp only: r_def adjust_probability_def float_constants(2))
  have size: "\<bar>probability_incorrect_size - 1 / 10000\<bar> < 1 / 10 ^ 11"
    by (simp add: float_constants(2))
  have p: "extension_probability filename
        = (if extension_test filename then 16609444 / 16777216 else 10737418 / 1073741824)"
    unfolding extension_probability_def float_constants(3)
    by (simp only: float_constants(1))
  have close: "\<bar>r - (if c then 1 - (1 - extension_probability filename) * (1 / 10000)
            else extension_probability filename * (1 / 10000))\<bar> < 1 / 10 ^ 7"
    unfolding r_def adjust_extension_cases
    by (cases c; cases "extension_test filename") (simp_all add: p)
  show ?thesis
    using c res form float_constants(2) size close by blast
qed

text \<open>
  C6 says that the result is below 0.5 whenever the extension is wrong and the size is
  inconsistent. The code does not do that, by the wrap-around of C4: on the file of 88
  bytes that declares 85899346 triangles, under the name \<open>part.obj\<close>, the result is
  \<open>16777199 / 16777216\<close>, above 0.5. (The result is in \<open>[0, 1]\<close> for every input:
  lemma \<open>is_stl_binary_range\<close>; and it is on the side of 0.5 that the claim gives
  where the sum does not wrap: lemma \<open>is_stl_binary_bounds_without_wrap\<close>.)
\<close>

theorem estimate_high_on_inconsistent_size:
  "is_stl_binary zero_junk (\<lambda>path. Some wrap_file) ''part.obj'' = Inr (16777199 / 16777216)
   \<and> (1 / 2 :: rat) < 16777199 / 16777216
   \<and> \<not> stl_suffix ''part.obj''
   \<and> \<not> size_consistent wrap_file"
proof -
  have "extension_test ''part.obj''"
    by (simp add: extension_test_def size_type_def)
  then have "extension_probability ''part.obj'' = float_rnd (1 - probability_incorrect_extension)"
    by (simp add: extension_probability_def)
  moreover have "file_size_check zero_junk (\<lambda>path. Some wrap_file) ''part.obj'' = Inr True"
    by (simp add: file_size_check_eq wrap_file_facts)
  ultimately have "is_stl_binary zero_junk (\<lambda>path. Some wrap_file) ''part.obj''
      = Inr (16777199 / 16777216)"
    by (simp only: is_stl_binary_eq and_then_def sum.case adjusted_constants)
  moreover have "\<not> stl_suffix ''part.obj''"
    by (simp add: stl_suffix_def)
  moreover have "\<not> size_consistent wrap_file"
    by (simp add: size_consistent_def wrap_file_facts)
  ultimately show ?thesis by simp
qed

text \<open>
  C10. For every path and file, the result of \<open>is_stl_binary\<close> is one of four
  constants, chosen by the test on the file name and by the size check alone; the four
  constants are the values of \<open>1 - (1 - p) * probability_incorrect_size\<close> and
  \<open>p * probability_incorrect_size\<close> for \<open>p = 1 - probability_incorrect_extension\<close>
  (test passed) and \<open>p = probability_incorrect_extension\<close> (test failed). The size
  check is a function of the length of the file and of its bytes 80 to 83, so that two
  readable files of the same length with the same four count bytes give the same
  result, whatever the other bytes and the indeterminate locals are.
\<close>

theorem is_stl_binary_four_constants:
  "is_stl_binary u fs filename
     = Inr (let c = (case fs filename of
                       None \<Rightarrow> False
                     | Some bytes \<Rightarrow>
                         84 \<le> length bytes
                         \<and> (84 :: 64 word) \<le> word_of_int (int (length bytes))
                         \<and> (word_of_int (int (length bytes)) :: 64 word)
                             = ucast (84 + 50 * (le_word (take 4 (drop 80 bytes)) :: 32 word)))
            in if extension_test filename
               then (if c then 16777199 / 16777216 else 1700807 / 17179869184)
               else (if c then 16775555 / 16777216 else 8796093 / 8796093022208))
   \<and> adjust_probability (float_rnd (1 - probability_incorrect_extension)) True
       = 16777199 / 16777216
   \<and> adjust_probability (float_rnd (1 - probability_incorrect_extension)) False
       = 1700807 / 17179869184
   \<and> adjust_probability probability_incorrect_extension True = 16775555 / 16777216
   \<and> adjust_probability probability_incorrect_extension False = 8796093 / 8796093022208
   \<and> (\<forall>u' fs' bytes bytes'.
         fs filename = Some bytes \<longrightarrow> fs' filename = Some bytes'
         \<longrightarrow> length bytes' = length bytes
         \<longrightarrow> take 4 (drop 80 bytes') = take 4 (drop 80 bytes)
         \<longrightarrow> is_stl_binary u' fs' filename = is_stl_binary u fs filename)"
proof -
  have indep: "\<forall>u' fs' bytes bytes'.
         fs filename = Some bytes \<longrightarrow> fs' filename = Some bytes'
         \<longrightarrow> length bytes' = length bytes
         \<longrightarrow> take 4 (drop 80 bytes') = take 4 (drop 80 bytes)
         \<longrightarrow> is_stl_binary u' fs' filename = is_stl_binary u fs filename"
  proof (intro allI impI)
    fix u' fs' bytes bytes'
    assume "fs filename = Some bytes" "fs' filename = Some bytes'"
      "length bytes' = length bytes" "take 4 (drop 80 bytes') = take 4 (drop 80 bytes)"
    then show "is_stl_binary u' fs' filename = is_stl_binary u fs filename"
      by (simp only: is_stl_binary_closed_form option.case)
  qed
  show ?thesis
    by (intro conjI) (rule is_stl_binary_closed_form adjusted_constants indep)+
qed

theorem is_stl_binary_four_constants_witness:
  "(\<lambda>path. Some empty_mesh_file) ''part.stl'' = Some empty_mesh_file
   \<and> (\<lambda>path. Some other_header_file) ''part.stl'' = Some other_header_file
   \<and> length other_header_file = length empty_mesh_file
   \<and> take 4 (drop 80 other_header_file) = take 4 (drop 80 empty_mesh_file)
   \<and> is_stl_binary one_junk (\<lambda>path. Some other_header_file) ''part.stl''
       = is_stl_binary zero_junk (\<lambda>path. Some empty_mesh_file) ''part.stl''
   \<and> is_stl_binary zero_junk (\<lambda>path. Some empty_mesh_file) ''part.stl''
       = Inr (16775555 / 16777216)"
proof -
  have h1: "(\<lambda>path. Some empty_mesh_file) ''part.stl'' = Some empty_mesh_file"
    by simp
  have h2: "(\<lambda>path. Some other_header_file) ''part.stl'' = Some other_header_file"
    by simp
  have h3: "length other_header_file = length empty_mesh_file"
    by (simp add: other_header_file_def empty_mesh_file_def)
  have h4: "take 4 (drop 80 other_header_file) = take 4 (drop 80 empty_mesh_file)"
    by (simp add: other_header_file_def empty_mesh_file_def)
  have e: "\<not> extension_test ''part.stl''"
    by (simp add: extension_test_def size_type_def)
  note t = is_stl_binary_four_constants [of zero_junk "\<lambda>path. Some empty_mesh_file" "''part.stl''"]
  note indep = t [THEN conjunct2, THEN conjunct2, THEN conjunct2, THEN conjunct2,
      THEN conjunct2, rule_format,
      of empty_mesh_file "\<lambda>path. Some other_header_file" other_header_file one_junk]
  have a: "is_stl_binary one_junk (\<lambda>path. Some other_header_file) ''part.stl''
       = is_stl_binary zero_junk (\<lambda>path. Some empty_mesh_file) ''part.stl''"
    using h1 h2 h3 h4 by (rule indep)
  have b: "is_stl_binary zero_junk (\<lambda>path. Some empty_mesh_file) ''part.stl''
       = Inr (16775555 / 16777216)"
    using t [THEN conjunct1] e by (simp add: empty_mesh_file_def)
  show ?thesis
    by (intro conjI) (rule h1 h2 h3 h4 a b)+
qed

subsection \<open>Claims about errors\<close>

text \<open>
  C9, as stated, fails on a path that cannot be opened: \<open>load\<close> returns normally, and
  \<open>is_stl_binary\<close> returns a probability, where the claim has an I/O error.
\<close>

theorem unreadable_path_returns_normally:
  "load zero_junk (\<lambda>path. None) ''missing.stl'' StlBinary_new = Inr \<lparr>triangles = []\<rparr>
   \<and> load zero_junk (\<lambda>path. None) ''missing.stl'' StlBinary_new \<noteq> Inl ios_failure
   \<and> is_stl_binary zero_junk (\<lambda>path. None) ''missing.stl'' = Inr (8796093 / 8796093022208)
   \<and> is_stl_binary zero_junk (\<lambda>path. None) ''missing.stl'' \<noteq> Inl ios_failure"
proof -
  from load_run_unreadable [where fs = "\<lambda>path. None" and filename = "''missing.stl''"
      and u = zero_junk and this = StlBinary_new]
  obtain s' where "load_run zero_junk (\<lambda>path. None) ''missing.stl'' StlBinary_new
      = Inr (s', \<lparr>triangles = []\<rparr>)"
    by (auto simp add: zero_junk_def StlBinary_new_def)
  then have "load zero_junk (\<lambda>path. None) ''missing.stl'' StlBinary_new = Inr \<lparr>triangles = []\<rparr>"
    by (rule load_of_load_run)
  moreover have "\<not> extension_test ''missing.stl''"
    by (simp add: extension_test_def size_type_def)
  then have "is_stl_binary zero_junk (\<lambda>path. None) ''missing.stl''
      = Inr (8796093 / 8796093022208)"
    by (simp add: is_stl_binary_closed_form)
  ultimately show ?thesis by simp
qed

text \<open>
  C9, amended. Neither \<open>load\<close> nor \<open>is_stl_binary\<close> ever raises an I/O error: the
  exception mask of the stream is empty, so that a file that cannot be opened, a short
  read and malformed data all leave both functions returning normally. On a path that
  cannot be opened, \<open>is_stl_binary\<close> returns the probability of the branch of a failed
  size check, \<open>p * probability_incorrect_size\<close>.
\<close>

theorem load_and_estimate_never_throw:
  "(\<exists>stl. load u fs filename this = Inr stl)
   \<and> (\<exists>probability. is_stl_binary u fs filename = Inr probability)
   \<and> (fs filename = None \<longrightarrow>
        is_stl_binary u fs filename
          = Inr (float_rnd (extension_probability filename * probability_incorrect_size)))"
  using load_total [of u fs filename this]
  by (simp add: is_stl_binary_eq file_size_check_eq and_then_def adjust_probability_def)

theorem load_and_estimate_never_throw_witness:
  "(\<lambda>path. None) ''missing.stl'' = (None :: byte list option)
   \<and> (\<exists>stl. load zero_junk (\<lambda>path. None) ''missing.stl'' StlBinary_new = Inr stl)
   \<and> is_stl_binary zero_junk (\<lambda>path. None) ''missing.stl''
       = Inr (float_rnd (extension_probability ''missing.stl'' * probability_incorrect_size))"
  using load_and_estimate_never_throw [of zero_junk "\<lambda>path. None" "''missing.stl''" StlBinary_new]
  by simp


end
